theory Spec2Isabelle
  imports Main "HOL-Library.Multiset"
begin

section \<open>The file system seen by datacollector.py\<close>

text \<open>
  A path is the list of its components below the root of the file system; it stands for
  an absolute \<open>pathlib.Path\<close> without symbolic links or \<open>..\<close> components. A
  directory is the list of its entries in the order the operating system lists them,
  with the rights the process has on it: to list it, and to search it (to reach what is
  below it). Python strings are modelled as \<open>string\<close>, holding the UTF-8 bytes of the
  text.
\<close>

type_synonym path = "string list"

text \<open>
  What \<open>open(file_path, 'r', encoding='utf-8')\<close> followed by \<open>f.read()\<close> does
  on a file: it returns the decoded text, raises \<open>UnicodeDecodeError\<close>, or raises
  another \<open>Exception\<close> (permission, I/O), whose \<open>str\<close> is kept.
\<close>

datatype read_outcome =
    Text string
  | UnicodeDecodeError
  | OtherException string

datatype access = Read_search | Read_only | Search_only | No_access

definition readable :: "access \<Rightarrow> bool" where
  "readable a = (a = Read_search \<or> a = Read_only)"

definition searchable :: "access \<Rightarrow> bool" where
  "searchable a = (a = Read_search \<or> a = Search_only)"

datatype node =
    File read_outcome
  | Dir access "(string \<times> node) list"

text \<open>What is in the tree at a path, whatever the rights.\<close>

fun lookup :: "node \<Rightarrow> path \<Rightarrow> node option" where
  "lookup n [] = Some n"
| "lookup (Dir a entries) (c # cs) =
     (case map_of entries c of None \<Rightarrow> None | Some n \<Rightarrow> lookup n cs)"
| "lookup (File d) (c # cs) = None"

text \<open>\<open>Path.name\<close>: the final component, empty for the root.\<close>

definition name :: "path \<Rightarrow> string" where
  "name p = (if p = [] then [] else last p)"

text \<open>\<open>str(path)\<close> on a POSIX system.\<close>

definition path_str :: "path \<Rightarrow> string" where
  "path_str p = (if p = [] then ''/'' else concat (map (\<lambda>c. ''/'' @ c) p))"

text \<open>
  The errors of the operating system that the program can meet, and the \<open>str\<close> of the
  \<open>OSError\<close> that Python raises for them on a path.
\<close>

datatype errno = ENOENT | EACCES | ENOTDIR | EISDIR | ENAMETOOLONG

definition strerror :: "errno \<Rightarrow> string" where
  "strerror e =
     (case e of
        ENOENT \<Rightarrow> ''[Errno 2] No such file or directory''
      | EACCES \<Rightarrow> ''[Errno 13] Permission denied''
      | ENOTDIR \<Rightarrow> ''[Errno 20] Not a directory''
      | EISDIR \<Rightarrow> ''[Errno 21] Is a directory''
      | ENAMETOOLONG \<Rightarrow> ''[Errno 36] File name too long'')"

definition os_error_str :: "errno \<Rightarrow> path \<Rightarrow> string" where
  "os_error_str e p = strerror e @ '': '' @ [CHR 0x27] @ path_str p @ [CHR 0x27]"

text \<open>
  \<open>os.stat\<close>: the path is walked from the root. A component below a regular file
  fails with ENOTDIR, a component in a directory that may not be searched with EACCES, a
  component of more than 255 bytes with ENAMETOOLONG, a component that is not there with
  ENOENT.
\<close>

fun stat :: "node \<Rightarrow> path \<Rightarrow> errno + node" where
  "stat n [] = Inr n"
| "stat (File d) (c # cs) = Inl ENOTDIR"
| "stat (Dir a entries) (c # cs) =
     (if \<not> searchable a then Inl EACCES
      else if 255 < length c then Inl ENAMETOOLONG
      else case map_of entries c of None \<Rightarrow> Inl ENOENT | Some n \<Rightarrow> stat n cs)"

text \<open>
  \<open>Path.exists\<close>, \<open>Path.is_dir\<close> and \<open>Path.is_file\<close>, as pathlib defines them:
  \<^verbatim>\<open>
  try:
      self.stat()            # is_dir: return S_ISDIR(self.stat().st_mode)
  except OSError as e:
      if not _ignore_error(e):
          raise
      return False
  return True
  \<close>
  where \<open>_ignore_error\<close> holds for ENOENT and ENOTDIR (and for EBADF and ELOOP, which
  do not arise here). The result is \<open>Inl\<close> with the \<open>str\<close> of the exception when the
  call raises.
\<close>

definition ignore_error :: "errno \<Rightarrow> bool" where
  "ignore_error e = (e = ENOENT \<or> e = ENOTDIR)"

definition exists :: "node \<Rightarrow> path \<Rightarrow> string + bool" where
  "exists fs p =
     (case stat fs p of
        Inl e \<Rightarrow> if \<not> ignore_error e then Inl (os_error_str e p) else Inr False
      | Inr n \<Rightarrow> Inr True)"

definition is_dir :: "node \<Rightarrow> path \<Rightarrow> string + bool" where
  "is_dir fs p =
     (case stat fs p of
        Inl e \<Rightarrow> if \<not> ignore_error e then Inl (os_error_str e p) else Inr False
      | Inr (Dir a entries) \<Rightarrow> Inr True
      | Inr (File d) \<Rightarrow> Inr False)"

definition is_file :: "node \<Rightarrow> path \<Rightarrow> string + bool" where
  "is_file fs p =
     (case stat fs p of
        Inl e \<Rightarrow> if \<not> ignore_error e then Inl (os_error_str e p) else Inr False
      | Inr (Dir a entries) \<Rightarrow> Inr False
      | Inr (File d) \<Rightarrow> Inr True)"

text \<open>\<open>str.rfind\<close> for a single character: the highest index, or \<open>-1\<close>.\<close>

definition rfind :: "string \<Rightarrow> char \<Rightarrow> int" where
  "rfind s c =
     (if c \<in> set s
      then int (length s) - 1 - int (length (takeWhile (\<lambda>x. x \<noteq> c) (rev s)))
      else - 1)"

text \<open>
  \<open>PurePath.suffix\<close>, as pathlib defines it:
  \<^verbatim>\<open>
  name = self.name
  i = name.rfind('.')
  if 0 < i < len(name) - 1:
      return name[i:]
  else:
      return ''
  \<close>
\<close>

definition suffix :: "path \<Rightarrow> string" where
  "suffix p =
     (let nm = name p; i = rfind nm (CHR ''.'')
      in if 0 < i \<and> i < int (length nm) - 1 then drop (nat i) nm else [])"

text \<open>
  \<open>str.lower\<close> on the ASCII letters. (Python also lowers letters outside ASCII; the
  byte model leaves them as they are.)
\<close>

definition lower_char :: "char \<Rightarrow> char" where
  "lower_char c =
     (let n = (of_char c :: nat) in if 65 \<le> n \<and> n \<le> 90 then char_of (n + 32) else c)"

definition lower :: "string \<Rightarrow> string" where
  "lower s = map lower_char s"

text \<open>
  \<open>folder.rglob('*')\<close>: every entry below the folder, at all depths, the folder itself
  excluded. Directories are visited in pre-order and each one lists all its entries
  before the entries of its subdirectories follow. A directory that may not be listed
  gives nothing, and nothing below a directory that may not be searched is listed:
  pathlib passes over the \<open>PermissionError\<close> of \<open>scandir\<close>. The program calls
  \<open>rglob\<close> only on a folder for which \<open>is_dir\<close> has just returned \<open>True\<close>.
\<close>

fun rglob_from :: "path \<Rightarrow> node \<Rightarrow> path list" where
  "rglob_from p (File d) = []"
| "rglob_from p (Dir a entries) =
     (if \<not> readable a then []
      else map (\<lambda>e. p @ [fst e]) entries
           @ (if \<not> searchable a then []
              else concat (map (\<lambda>e. rglob_from (p @ [fst e]) (snd e)) entries)))"

definition rglob :: "node \<Rightarrow> path \<Rightarrow> path list" where
  "rglob fs folder =
     (case stat fs folder of Inl e \<Rightarrow> [] | Inr n \<Rightarrow> rglob_from folder n)"

text \<open>A path is a descendant of a folder when it lies strictly below it.\<close>

definition descendant :: "path \<Rightarrow> path \<Rightarrow> bool" where
  "descendant folder p = (length folder < length p \<and> take (length folder) p = folder)"

section \<open>Effects: the error stream and the log\<close>

text \<open>
  \<open>print(..., file=sys.stderr)\<close> and the records of the \<open>logging\<close> module are
  kept as a trace of events, in the order the code emits them. The progress bar is not
  part of the trace.
\<close>

datatype level = WARNING | ERROR

datatype event =
    Print_stderr string
  | Print_stdout string
  | Logged level string

text \<open>
  The messages are the source's f-strings. Their Russian text is written as the bytes of
  its UTF-8 encoding, the interpolated value in its place, the ASCII parts as they are.

  Line 21, the message for a folder that does not exist or is not a directory:
  \<^verbatim>\<open>f"<5 letters> '{folder}' <5 words>."\<close>
\<close>

definition folder_error_msg :: "path \<Rightarrow> string" where
  "folder_error_msg folder =
     [CHR 0xD0, CHR 0x9F, CHR 0xD0, CHR 0xB0, CHR 0xD0, CHR 0xBF, CHR 0xD0, CHR 0xBA,
      CHR 0xD0, CHR 0xB0] @ '' '' @ [CHR 0x27]
     @ path_str folder
     @ [CHR 0x27] @ '' '' @ [CHR 0xD0, CHR 0xBD, CHR 0xD0, CHR 0xB5] @ '' ''
     @ [CHR 0xD1, CHR 0x81, CHR 0xD1, CHR 0x83, CHR 0xD1, CHR 0x89, CHR 0xD0, CHR 0xB5,
        CHR 0xD1, CHR 0x81, CHR 0xD1, CHR 0x82, CHR 0xD0, CHR 0xB2, CHR 0xD1, CHR 0x83,
        CHR 0xD0, CHR 0xB5, CHR 0xD1, CHR 0x82] @ '' ''
     @ [CHR 0xD0, CHR 0xB8, CHR 0xD0, CHR 0xBB, CHR 0xD0, CHR 0xB8] @ '' ''
     @ [CHR 0xD0, CHR 0xBD, CHR 0xD0, CHR 0xB5] @ '' ''
     @ [CHR 0xD1, CHR 0x8F, CHR 0xD0, CHR 0xB2, CHR 0xD0, CHR 0xBB, CHR 0xD1, CHR 0x8F,
        CHR 0xD0, CHR 0xB5, CHR 0xD1, CHR 0x82, CHR 0xD1, CHR 0x81, CHR 0xD1, CHR 0x8F] @ '' ''
     @ [CHR 0xD0, CHR 0xB4, CHR 0xD0, CHR 0xB8, CHR 0xD1, CHR 0x80, CHR 0xD0, CHR 0xB5,
        CHR 0xD0, CHR 0xBA, CHR 0xD1, CHR 0x82, CHR 0xD0, CHR 0xBE, CHR 0xD1, CHR 0x80,
        CHR 0xD0, CHR 0xB8, CHR 0xD0, CHR 0xB5, CHR 0xD0, CHR 0xB9] @ ''.''"

text \<open>
  Line 39, the message for a file that is not text or has an unsupported encoding:
  \<^verbatim>\<open>f"<4 letters> '{file_path}' <7 words>. <1 word>."\<close>
\<close>

definition decode_warning_msg :: "path \<Rightarrow> string" where
  "decode_warning_msg file_path =
     [CHR 0xD0, CHR 0xA4, CHR 0xD0, CHR 0xB0, CHR 0xD0, CHR 0xB9, CHR 0xD0, CHR 0xBB]
     @ '' '' @ [CHR 0x27]
     @ path_str file_path
     @ [CHR 0x27] @ '' '' @ [CHR 0xD0, CHR 0xBD, CHR 0xD0, CHR 0xB5] @ '' ''
     @ [CHR 0xD1, CHR 0x8F, CHR 0xD0, CHR 0xB2, CHR 0xD0, CHR 0xBB, CHR 0xD1, CHR 0x8F,
        CHR 0xD0, CHR 0xB5, CHR 0xD1, CHR 0x82, CHR 0xD1, CHR 0x81, CHR 0xD1, CHR 0x8F] @ '' ''
     @ [CHR 0xD1, CHR 0x82, CHR 0xD0, CHR 0xB5, CHR 0xD0, CHR 0xBA, CHR 0xD1, CHR 0x81,
        CHR 0xD1, CHR 0x82, CHR 0xD0, CHR 0xBE, CHR 0xD0, CHR 0xB2, CHR 0xD1, CHR 0x8B,
        CHR 0xD0, CHR 0xBC] @ '' ''
     @ [CHR 0xD0, CHR 0xB8, CHR 0xD0, CHR 0xBB, CHR 0xD0, CHR 0xB8] @ '' ''
     @ [CHR 0xD0, CHR 0xB8, CHR 0xD0, CHR 0xBC, CHR 0xD0, CHR 0xB5, CHR 0xD0, CHR 0xB5,
        CHR 0xD1, CHR 0x82] @ '' ''
     @ [CHR 0xD0, CHR 0xBD, CHR 0xD0, CHR 0xB5, CHR 0xD0, CHR 0xBF, CHR 0xD0, CHR 0xBE,
        CHR 0xD0, CHR 0xB4, CHR 0xD0, CHR 0xB4, CHR 0xD0, CHR 0xB5, CHR 0xD1, CHR 0x80,
        CHR 0xD0, CHR 0xB6, CHR 0xD0, CHR 0xB8, CHR 0xD0, CHR 0xB2, CHR 0xD0, CHR 0xB0,
        CHR 0xD0, CHR 0xB5, CHR 0xD0, CHR 0xBC, CHR 0xD1, CHR 0x83, CHR 0xD1, CHR 0x8E] @ '' ''
     @ [CHR 0xD0, CHR 0xBA, CHR 0xD0, CHR 0xBE, CHR 0xD0, CHR 0xB4, CHR 0xD0, CHR 0xB8,
        CHR 0xD1, CHR 0x80, CHR 0xD0, CHR 0xBE, CHR 0xD0, CHR 0xB2, CHR 0xD0, CHR 0xBA,
        CHR 0xD1, CHR 0x83] @ ''. ''
     @ [CHR 0xD0, CHR 0x9F, CHR 0xD1, CHR 0x80, CHR 0xD0, CHR 0xBE, CHR 0xD0, CHR 0xBF,
        CHR 0xD1, CHR 0x83, CHR 0xD1, CHR 0x81, CHR 0xD0, CHR 0xBA, CHR 0xD0, CHR 0xB0,
        CHR 0xD1, CHR 0x8E] @ ''.''"

text \<open>
  Line 44, the message for any other exception while reading:
  \<^verbatim>\<open>f"<4 words> '{file_path}': {e}"\<close>
\<close>

definition read_error_msg :: "path \<Rightarrow> string \<Rightarrow> string" where
  "read_error_msg file_path e =
     [CHR 0xD0, CHR 0x9E, CHR 0xD1, CHR 0x88, CHR 0xD0, CHR 0xB8, CHR 0xD0, CHR 0xB1,
      CHR 0xD0, CHR 0xBA, CHR 0xD0, CHR 0xB0] @ '' ''
     @ [CHR 0xD0, CHR 0xBF, CHR 0xD1, CHR 0x80, CHR 0xD0, CHR 0xB8] @ '' ''
     @ [CHR 0xD1, CHR 0x87, CHR 0xD1, CHR 0x82, CHR 0xD0, CHR 0xB5, CHR 0xD0, CHR 0xBD,
        CHR 0xD0, CHR 0xB8, CHR 0xD0, CHR 0xB8] @ '' ''
     @ [CHR 0xD1, CHR 0x84, CHR 0xD0, CHR 0xB0, CHR 0xD0, CHR 0xB9, CHR 0xD0, CHR 0xBB,
        CHR 0xD0, CHR 0xB0] @ '' '' @ [CHR 0x27]
     @ path_str file_path
     @ [CHR 0x27] @ '': '' @ e"

text \<open>
  Line 37, the block of a file that was read. The label between the dashes and the colon
  is two Russian words (in English: file content), 16 letters in 32 bytes:
  \<^verbatim>\<open>f"--- <label>: {file_path.name} ---\n{text}\n\n"\<close>
\<close>

definition banner_label :: string where
  "banner_label =
     [CHR 0xD0, CHR 0xA1, CHR 0xD0, CHR 0xBE, CHR 0xD0, CHR 0xB4, CHR 0xD0, CHR 0xB5,
      CHR 0xD1, CHR 0x80, CHR 0xD0, CHR 0xB6, CHR 0xD0, CHR 0xB8, CHR 0xD0, CHR 0xBC,
      CHR 0xD0, CHR 0xBE, CHR 0xD0, CHR 0xB5] @ '' ''
     @ [CHR 0xD1, CHR 0x84, CHR 0xD0, CHR 0xB0, CHR 0xD0, CHR 0xB9, CHR 0xD0, CHR 0xBB,
        CHR 0xD0, CHR 0xB0]"

definition block_text :: "path \<Rightarrow> string \<Rightarrow> string" where
  "block_text file_path text =
     ''--- '' @ banner_label @ '': '' @ name file_path @ '' ---'' @ [CHR 0x0A]
     @ text @ [CHR 0x0A, CHR 0x0A]"


section \<open>collect_text_from_folders\<close>

text \<open>
  Lines 17 to 28: the loop over the folders that fills \<open>all_files\<close>. Nothing in it
  catches an exception, so a call of \<open>exists\<close>, \<open>is_dir\<close> or \<open>is_file\<close> that raises
  ends the generator. The result of discovery is either the exception with the events
  emitted before it (\<open>Inl\<close>), or the list of files with the events (\<open>Inr\<close>).
  The file system is one value for the whole run: it does not change while the generator
  runs.
\<close>

type_synonym discovery = "string \<times> event list + path list \<times> event list"

definition files_of :: "discovery \<Rightarrow> path list" where
  "files_of d = (case d of Inl x \<Rightarrow> [] | Inr (all_files, evs) \<Rightarrow> all_files)"

definition matches :: "node \<Rightarrow> string \<Rightarrow> path \<Rightarrow> bool" where
  "matches fs extension file_path =
     (is_file fs file_path = Inr True \<and> lower (suffix file_path) = lower extension)"

text \<open>Line 20: \<^verbatim>\<open>not folder.exists() or not folder.is_dir()\<close>.\<close>

definition not_a_folder :: "node \<Rightarrow> path \<Rightarrow> string + bool" where
  "not_a_folder fs folder =
     (case exists fs folder of
        Inl e \<Rightarrow> Inl e
      | Inr ex \<Rightarrow>
          if \<not> ex then Inr True
          else (case is_dir fs folder of Inl e \<Rightarrow> Inl e | Inr d \<Rightarrow> Inr (\<not> d)))"

text \<open>Lines 26 to 28: the loop over the entries that \<open>rglob\<close> gives.\<close>

fun scan_entries :: "node \<Rightarrow> string \<Rightarrow> path list \<Rightarrow> path list \<Rightarrow> string + path list" where
  "scan_entries fs extension [] all_files = Inr all_files"
| "scan_entries fs extension (file_path # rest) all_files =
     (case is_file fs file_path of
        Inl e \<Rightarrow> Inl e
      | Inr f \<Rightarrow>
          if f \<and> lower (suffix file_path) = lower extension
          then scan_entries fs extension rest (all_files @ [file_path])
          else scan_entries fs extension rest all_files)"

fun discover_loop ::
  "node \<Rightarrow> string \<Rightarrow> path list \<Rightarrow> path list \<times> event list \<Rightarrow> discovery"
where
  "discover_loop fs extension [] acc = Inr acc"
| "discover_loop fs extension (folder # folders) (all_files, evs) =
     (case not_a_folder fs folder of
        Inl e \<Rightarrow> Inl (e, evs)
      | Inr skip \<Rightarrow>
          if skip
          then discover_loop fs extension folders
                 (all_files,
                  evs @ [Print_stderr (folder_error_msg folder),
                         Logged WARNING (folder_error_msg folder)])
          else (case scan_entries fs extension (rglob fs folder) all_files of
                  Inl e \<Rightarrow> Inl (e, evs)
                | Inr all_files' \<Rightarrow> discover_loop fs extension folders (all_files', evs)))"

definition discover :: "node \<Rightarrow> path list \<Rightarrow> string \<Rightarrow> discovery" where
  "discover fs folders extension = discover_loop fs extension folders ([], [])"

text \<open>
  Opening and reading a path: a path that \<open>stat\<close> does not reach and a directory raise
  an \<open>OSError\<close>, a file behaves as its node says.
\<close>

definition open_read :: "node \<Rightarrow> path \<Rightarrow> read_outcome" where
  "open_read fs file_path =
     (case stat fs file_path of
        Inl e \<Rightarrow> OtherException (os_error_str e file_path)
      | Inr (Dir a entries) \<Rightarrow> OtherException (os_error_str EISDIR file_path)
      | Inr (File outcome) \<Rightarrow> outcome)"

text \<open>Lines 33 to 47: the block returned for one file, and the events of the call.\<close>

definition read_file :: "node \<Rightarrow> path \<Rightarrow> string \<times> event list" where
  "read_file fs file_path =
     (case open_read fs file_path of
        Text text \<Rightarrow> (block_text file_path text, [])
      | UnicodeDecodeError \<Rightarrow>
          ([], [Print_stderr (decode_warning_msg file_path),
                Logged WARNING (decode_warning_msg file_path)])
      | OtherException e \<Rightarrow>
          ([], [Print_stderr (read_error_msg file_path e),
                Logged ERROR (read_error_msg file_path e)]))"

text \<open>
  Lines 49 to 56: what the generator yields, one entry per \<open>yield\<close>, each with the
  events of its call of \<open>read_file\<close>. In the concurrent branch, task \<open>i\<close> is the one
  submitted for \<open>all_files[i]\<close>, and \<open>order\<close> is the order in which
  \<open>as_completed\<close> hands the tasks back: a permutation of the submitted tasks chosen by
  the thread pool. The sequential branch does not look at it.
\<close>

definition completion_order :: "nat \<Rightarrow> nat list \<Rightarrow> bool" where
  "completion_order k order = (mset order = mset [0..<k])"

definition read_all ::
  "node \<Rightarrow> path list \<Rightarrow> bool \<Rightarrow> nat list \<Rightarrow> (string \<times> event list) list" where
  "read_all fs all_files use_multithreading order =
     (if use_multithreading
      then map (\<lambda>i. read_file fs (all_files ! i)) order
      else map (read_file fs) all_files)"

text \<open>
  The whole generator, drained: the events of discovery, the yielded entries, and the
  exception that ends it, if discovery raised. With no matched file it returns before
  yielding.
\<close>

type_synonym collected = "event list \<times> (string \<times> event list) list \<times> string option"

definition collect_text_from_folders ::
  "node \<Rightarrow> path list \<Rightarrow> string \<Rightarrow> bool \<Rightarrow> nat list \<Rightarrow> collected" where
  "collect_text_from_folders fs folders extension use_multithreading order =
     (case discover fs folders extension of
        Inl (e, evs) \<Rightarrow> (evs, [], Some e)
      | Inr (all_files, evs) \<Rightarrow>
          if all_files = [] then (evs, [], None)
          else (evs, read_all fs all_files use_multithreading order, None))"

definition yielded :: "collected \<Rightarrow> (string \<times> event list) list" where
  "yielded r = fst (snd r)"

definition blocks :: "collected \<Rightarrow> string list" where
  "blocks r = map fst (yielded r)"

text \<open>
  Lines 93 to 97 of \<open>main\<close>: the text written to the temporary file, and whether any
  chunk was written.
\<close>

fun write_chunks :: "string list \<Rightarrow> string \<times> bool \<Rightarrow> string \<times> bool" where
  "write_chunks [] acc = acc"
| "write_chunks (chunk # chunks) (written, has_content) =
     (if chunk \<noteq> [] then write_chunks chunks (written @ chunk, True)
      else write_chunks chunks (written, has_content))"

section \<open>The end of main: from the temporary file to the output file\<close>

text \<open>
  The working directory is a map from file names to their text. Whether writing the
  output file succeeds is decided by the operating system: \<open>Path.write_text\<close> opens the
  file for writing, which creates or truncates it, and then writes. Opening can fail
  (nothing is created), or writing can fail after some characters have reached the file.
  Reading the temporary file back is taken to return the text that was written to it.
\<close>

type_synonym store = "string \<rightharpoonup> string"

datatype write_outcome =
    Write_completes
  | Open_raises string
  | Write_raises nat string

definition read_text :: "store \<Rightarrow> string \<Rightarrow> string + string" where
  "read_text st f =
     (case st f of
        None \<Rightarrow> Inl (''[Errno 2] No such file or directory: '' @ [CHR 0x27] @ f @ [CHR 0x27])
      | Some text \<Rightarrow> Inr text)"

definition write_text :: "store \<Rightarrow> string \<Rightarrow> string \<Rightarrow> write_outcome \<Rightarrow> store \<times> string option" where
  "write_text st f data w =
     (case w of
        Write_completes \<Rightarrow> (st(f \<mapsto> data), None)
      | Open_raises e \<Rightarrow> (st, Some e)
      | Write_raises n e \<Rightarrow> (st(f \<mapsto> take n data), Some e))"

definition unlink :: "store \<Rightarrow> string \<Rightarrow> string + store" where
  "unlink st f =
     (case st f of
        None \<Rightarrow> Inl (''[Errno 2] No such file or directory: '' @ [CHR 0x27] @ f @ [CHR 0x27])
      | Some text \<Rightarrow> Inr (st(f := None)))"

text \<open>Line 126: \<^verbatim>\<open>f"<4 words>: {e}"\<close>, in English: error while writing the file.\<close>

definition write_error_msg :: "string \<Rightarrow> string" where
  "write_error_msg e =
     [CHR 0xD0, CHR 0x9E, CHR 0xD1, CHR 0x88, CHR 0xD0, CHR 0xB8, CHR 0xD0, CHR 0xB1,
      CHR 0xD0, CHR 0xBA, CHR 0xD0, CHR 0xB0] @ '' ''
     @ [CHR 0xD0, CHR 0xBF, CHR 0xD1, CHR 0x80, CHR 0xD0, CHR 0xB8] @ '' ''
     @ [CHR 0xD0, CHR 0xB7, CHR 0xD0, CHR 0xB0, CHR 0xD0, CHR 0xBF, CHR 0xD0, CHR 0xB8,
        CHR 0xD1, CHR 0x81, CHR 0xD0, CHR 0xB8] @ '' ''
     @ [CHR 0xD1, CHR 0x84, CHR 0xD0, CHR 0xB0, CHR 0xD0, CHR 0xB9, CHR 0xD0, CHR 0xBB,
        CHR 0xD0, CHR 0xB0] @ '': '' @ e"

text \<open>Line 123: \<^verbatim>\<open>f"<6 words> '{output_file}'."\<close>\<close>

definition success_msg :: "string \<Rightarrow> string" where
  "success_msg output_file =
     [CHR 0xD0, CHR 0xA2, CHR 0xD0, CHR 0xB5, CHR 0xD0, CHR 0xBA, CHR 0xD1, CHR 0x81,
      CHR 0xD1, CHR 0x82] @ '' ''
     @ [CHR 0xD1, CHR 0x83, CHR 0xD1, CHR 0x81, CHR 0xD0, CHR 0xBF, CHR 0xD0, CHR 0xB5,
        CHR 0xD1, CHR 0x88, CHR 0xD0, CHR 0xBD, CHR 0xD0, CHR 0xBE] @ '' ''
     @ [CHR 0xD1, CHR 0x81, CHR 0xD0, CHR 0xBE, CHR 0xD0, CHR 0xB1, CHR 0xD1, CHR 0x80,
        CHR 0xD0, CHR 0xB0, CHR 0xD0, CHR 0xBD] @ '' ''
     @ [CHR 0xD0, CHR 0xB2] @ '' ''
     @ [CHR 0xD1, CHR 0x84, CHR 0xD0, CHR 0xB0, CHR 0xD0, CHR 0xB9, CHR 0xD0, CHR 0xBB]
     @ '' '' @ [CHR 0x27] @ output_file @ [CHR 0x27] @ ''.''"

text \<open>Line 124, a fixed text that points to the output file and to log.txt.\<close>

definition done_msg :: string where
  "done_msg =
     [CHR 0xD0, CHR 0x93, CHR 0xD0, CHR 0xBE, CHR 0xD1, CHR 0x82, CHR 0xD0, CHR 0xBE,
      CHR 0xD0, CHR 0xB2, CHR 0xD0, CHR 0xBE] @ ''! ''
     @ [CHR 0xD0, CHR 0x9F, CHR 0xD1, CHR 0x80, CHR 0xD0, CHR 0xBE, CHR 0xD0, CHR 0xB2,
        CHR 0xD0, CHR 0xB5, CHR 0xD1, CHR 0x80, CHR 0xD1, CHR 0x8C, CHR 0xD1, CHR 0x82,
        CHR 0xD0, CHR 0xB5] @ '' ''
     @ [CHR 0xD1, CHR 0x84, CHR 0xD0, CHR 0xB0, CHR 0xD0, CHR 0xB9, CHR 0xD0, CHR 0xBB]
     @ '' '' @ [CHR 0xD0, CHR 0xB8] @ '' log.txt ''
     @ [CHR 0xD0, CHR 0xB4, CHR 0xD0, CHR 0xBB, CHR 0xD1, CHR 0x8F] @ '' ''
     @ [CHR 0xD0, CHR 0xBE, CHR 0xD1, CHR 0x88, CHR 0xD0, CHR 0xB8, CHR 0xD0, CHR 0xB1,
        CHR 0xD0, CHR 0xBE, CHR 0xD0, CHR 0xBA] @ ''.''"

text \<open>
  How \<open>main\<close> ends: the working directory it leaves, the events of lines 120 to 129,
  and the exception that leaves \<open>main\<close>, if one does.
\<close>

record ending =
  files :: store
  trace :: "event list"
  raised :: "string option"

text \<open>Lines 125 to 129, the handler of \<open>except Exception as e\<close>.\<close>

definition write_failed :: "store \<Rightarrow> string \<Rightarrow> string \<Rightarrow> ending" where
  "write_failed st temp_file e =
     (let error_msg = write_error_msg e;
          evs = [Print_stderr error_msg, Logged ERROR error_msg]
      in case unlink st temp_file of
           Inl e' \<Rightarrow> \<lparr>files = st, trace = evs, raised = Some e'\<rparr>
         | Inr st' \<Rightarrow> \<lparr>files = st', trace = evs, raised = None\<rparr>)"

text \<open>Lines 120 to 124, the body of the \<open>try\<close>, with the handler where a step raises.\<close>

definition save_output :: "store \<Rightarrow> string \<Rightarrow> string \<Rightarrow> write_outcome \<Rightarrow> ending" where
  "save_output st temp_file output_file w =
     (case read_text st temp_file of
        Inl e \<Rightarrow> write_failed st temp_file e
      | Inr data \<Rightarrow>
          (case write_text st output_file data w of
             (st1, Some e) \<Rightarrow> write_failed st1 temp_file e
           | (st1, None) \<Rightarrow>
               (case unlink st1 temp_file of
                  Inl e \<Rightarrow> write_failed st1 temp_file e
                | Inr st2 \<Rightarrow>
                    \<lparr>files = st2,
                     trace = [Print_stdout (success_msg output_file), Print_stdout done_msg],
                     raised = None\<rparr>)))"


section \<open>Example inputs\<close>

text \<open>
  A small tree: \<open>/docs\<close> holds a readable text file, a file that raises on reading, a
  directory named like a text file, and a subdirectory with an undecodable file, a
  compressed archive and a dot-file. \<open>/locked\<close> may be listed but not searched, so its
  entry is seen by \<open>rglob\<close> and cannot be examined.
\<close>

definition example_tree :: node where
  "example_tree =
     Dir Read_search
       [(''docs'',
         Dir Read_search
           [(''a.txt'', File (Text ''hello'')),
            (''sub'',
             Dir Read_search
               [(''B.TXT'', File UnicodeDecodeError),
                (''archive.txt.gz'', File (Text ''z'')),
                (''.txt'', File (Text ''dot''))]),
            (''c.txt'', File (OtherException ''[Errno 13] Permission denied'')),
            (''d.txt'', Dir Read_search [])]),
        (''x.txt'', File (Text ''x'')),
        (''locked'', Dir Read_only [(''s.txt'', File (Text ''secret''))])]"


text \<open>
  The same file system after a run in the root directory that left its output file and
  its log there: what is below \<open>/docs\<close> is unchanged.
\<close>

definition example_tree_after :: node where
  "example_tree_after =
     Dir Read_search
       [(''docs'',
         Dir Read_search
           [(''a.txt'', File (Text ''hello'')),
            (''sub'',
             Dir Read_search
               [(''B.TXT'', File UnicodeDecodeError),
                (''archive.txt.gz'', File (Text ''z'')),
                (''.txt'', File (Text ''dot''))]),
            (''c.txt'', File (OtherException ''[Errno 13] Permission denied'')),
            (''d.txt'', Dir Read_search [])]),
        (''x.txt'', File (Text ''x'')),
        (''locked'', Dir Read_only [(''s.txt'', File (Text ''secret''))]),
        (''output.txt'', File (Text ''the output of the first run'')),
        (''log.txt'', File (Text ''the log of the first run''))]"

section \<open>Properties of the discovery loop\<close>

lemma scan_entries_acc:
  "scan_entries fs extension ps all_files =
     (case scan_entries fs extension ps [] of
        Inl e \<Rightarrow> Inl e
      | Inr found \<Rightarrow> Inr (all_files @ found))"
proof (induction ps arbitrary: all_files)
  case Nil
  show ?case by simp
next
  case (Cons p ps)
  show ?case
    using Cons.IH [of "all_files @ [p]"] Cons.IH [of "[p]"] Cons.IH [of all_files]
    by (simp split: sum.splits)
qed

lemma scan_entries_filter:
  "scan_entries fs extension ps [] = Inr found \<Longrightarrow> found = filter (matches fs extension) ps"
proof (induction ps arbitrary: found)
  case Nil
  then show ?case by simp
next
  case (Cons p ps)
  from Cons.prems obtain f where f: "is_file fs p = Inr f"
    by (auto split: sum.splits)
  show ?case
  proof (cases "f \<and> lower (suffix p) = lower extension")
    case True
    with Cons.prems f have s: "scan_entries fs extension ps [p] = Inr found" by simp
    then obtain rest where r: "scan_entries fs extension ps [] = Inr rest" and "found = [p] @ rest"
      using scan_entries_acc [of fs extension ps "[p]"] by (auto split: sum.splits)
    with Cons.IH [OF r] True f show ?thesis by (simp add: matches_def)
  next
    case False
    with Cons.prems f have "scan_entries fs extension ps [] = Inr found" by auto
    with Cons.IH False f show ?thesis by (auto simp: matches_def)
  qed
qed

lemma discover_loop_acc:
  "discover_loop fs extension folders (all_files, evs) =
     (case discover_loop fs extension folders ([], []) of
        Inl (e, evs') \<Rightarrow> Inl (e, evs @ evs')
      | Inr (found, evs') \<Rightarrow> Inr (all_files @ found, evs @ evs'))"
proof (induction folders arbitrary: all_files evs)
  case Nil
  show ?case by simp
next
  case (Cons folder folders)
  let ?warn = "[Print_stderr (folder_error_msg folder), Logged WARNING (folder_error_msg folder)]"
  show ?case
  proof (cases "not_a_folder fs folder")
    case (Inl e)
    then show ?thesis by simp
  next
    case (Inr skip)
    show ?thesis
    proof (cases skip)
      case True
      with Inr show ?thesis
        using Cons.IH [of all_files "evs @ ?warn"] Cons.IH [of "[]" ?warn]
        by (simp split: sum.splits)
    next
      case False
      show ?thesis
      proof (cases "scan_entries fs extension (rglob fs folder) []")
        case (Inl e)
        with Inr False show ?thesis
          using scan_entries_acc [of fs extension "rglob fs folder" all_files]
          by simp
      next
        case scanned: (Inr here)
        with Inr False show ?thesis
          using scan_entries_acc [of fs extension "rglob fs folder" all_files]
            Cons.IH [of "all_files @ here" evs] Cons.IH [of here "[]"]
          by (simp split: sum.splits)
      qed
    qed
  qed
qed

lemma discover_Nil: "discover fs [] extension = Inr ([], [])"
  by (simp add: discover_def)

lemma discover_Cons_raise:
  "not_a_folder fs folder = Inl e \<Longrightarrow> discover fs (folder # folders) extension = Inl (e, [])"
  by (simp add: discover_def)

lemma discover_Cons_skip:
  "not_a_folder fs folder = Inr True \<Longrightarrow>
   discover fs (folder # folders) extension =
     (case discover fs folders extension of
        Inl (e, evs) \<Rightarrow>
          Inl (e, [Print_stderr (folder_error_msg folder),
                   Logged WARNING (folder_error_msg folder)] @ evs)
      | Inr (found, evs) \<Rightarrow>
          Inr (found, [Print_stderr (folder_error_msg folder),
                       Logged WARNING (folder_error_msg folder)] @ evs))"
  unfolding discover_def
  using discover_loop_acc [of fs extension folders "[]"
      "[Print_stderr (folder_error_msg folder), Logged WARNING (folder_error_msg folder)]"]
  by (simp split: sum.splits)

lemma discover_Cons_scan_raise:
  "not_a_folder fs folder = Inr False \<Longrightarrow>
   scan_entries fs extension (rglob fs folder) [] = Inl e \<Longrightarrow>
   discover fs (folder # folders) extension = Inl (e, [])"
  by (simp add: discover_def)

lemma discover_Cons_dir:
  "not_a_folder fs folder = Inr False \<Longrightarrow>
   scan_entries fs extension (rglob fs folder) [] = Inr here \<Longrightarrow>
   discover fs (folder # folders) extension =
     (case discover fs folders extension of
        Inl (e, evs) \<Rightarrow> Inl (e, evs)
      | Inr (found, evs) \<Rightarrow> Inr (here @ found, evs))"
  unfolding discover_def
  using discover_loop_acc [of fs extension folders here "[]"]
  by (simp split: sum.splits)


lemma descendant_child: "descendant (p @ [c]) q \<Longrightarrow> descendant p q"
proof -
  assume a: "descendant (p @ [c]) q"
  then have len: "length p < length q" and tk: "take (Suc (length p)) q = p @ [c]"
    by (simp_all add: descendant_def)
  have "take (length p) q = take (length p) (take (Suc (length p)) q)"
    by (simp add: min_def)
  also have "\<dots> = p" by (simp add: tk)
  finally show ?thesis using len by (simp add: descendant_def)
qed

lemma rglob_from_descendant:
  "q \<in> set (rglob_from p n) \<Longrightarrow> descendant p q"
proof (induction p n arbitrary: q rule: rglob_from.induct)
  case (1 p d)
  then show ?case by simp
next
  case (2 p a entries)
  from "2.prems" consider
      (here) e where "e \<in> set entries" "q = p @ [fst e]"
    | (below) e where "readable a" "searchable a" "e \<in> set entries"
        "q \<in> set (rglob_from (p @ [fst e]) (snd e))"
    by (auto split: if_splits)
  then show ?case
  proof cases
    case here
    then show ?thesis by (simp add: descendant_def)
  next
    case below
    then have "descendant (p @ [fst e]) q" using "2.IH" by blast
    then show ?thesis by (rule descendant_child)
  qed
qed

lemma rglob_descendant: "p \<in> set (rglob fs folder) \<Longrightarrow> descendant folder p"
  by (auto simp: rglob_def rglob_from_descendant split: sum.splits)

lemma discover_member:
  "p \<in> set (files_of (discover fs folders extension)) \<Longrightarrow>
   \<exists>folder \<in> set folders. p \<in> set (rglob fs folder) \<and> matches fs extension p"
proof (induction folders)
  case Nil
  then show ?case by (simp add: discover_Nil files_of_def)
next
  case (Cons folder folders)
  show ?case
  proof (cases "not_a_folder fs folder")
    case (Inl e)
    with Cons.prems show ?thesis by (simp add: discover_Cons_raise files_of_def)
  next
    case (Inr skip)
    show ?thesis
    proof (cases skip)
      case True
      with Inr have n: "not_a_folder fs folder = Inr True" by simp
      from Cons.prems have "p \<in> set (files_of (discover fs folders extension))"
        by (auto simp: discover_Cons_skip [OF n] files_of_def split: sum.splits)
      with Cons.IH show ?thesis by auto
    next
      case False
      with Inr have n: "not_a_folder fs folder = Inr False" by simp
      show ?thesis
      proof (cases "scan_entries fs extension (rglob fs folder) []")
        case (Inl e)
        with Cons.prems show ?thesis
          by (simp add: discover_Cons_scan_raise [OF n] files_of_def)
      next
        case scanned: (Inr here)
        from Cons.prems have "p \<in> set here \<or> p \<in> set (files_of (discover fs folders extension))"
          by (auto simp: discover_Cons_dir [OF n scanned] files_of_def split: sum.splits)
        moreover have "here = filter (matches fs extension) (rglob fs folder)"
          using scanned by (rule scan_entries_filter)
        ultimately show ?thesis using Cons.IH by auto
      qed
    qed
  qed
qed

lemma discover_matches:
  "p \<in> set (files_of (discover fs folders extension)) \<Longrightarrow> matches fs extension p"
  using discover_member by blast

lemma stat_lookup: "stat fs p = Inr n \<Longrightarrow> lookup fs p = Some n"
  by (induction fs p rule: stat.induct) (auto split: if_splits option.splits)

section \<open>Discovery\<close>

text \<open>
  Claim C1. Every path in the list that discovery builds has a suffix equal to the
  extension when both are lowered, and lies strictly below one of the given folders.
\<close>

theorem discover_suffix_and_descendant:
  assumes "file_path \<in> set (files_of (discover fs folders extension))"
  shows "lower (suffix file_path) = lower extension
         \<and> (\<exists>folder \<in> set folders. descendant folder file_path)"
proof -
  from discover_member [OF assms] obtain folder where
    f: "folder \<in> set folders" and r: "file_path \<in> set (rglob fs folder)"
    and m: "matches fs extension file_path"
    by blast
  from m have "lower (suffix file_path) = lower extension" by (simp add: matches_def)
  moreover from r have "descendant folder file_path" by (rule rglob_descendant)
  ultimately show ?thesis using f by blast
qed

theorem discover_suffix_and_descendant_witness:
  "[''docs'', ''sub'', ''B.TXT''] \<in> set (files_of (discover example_tree [[''nope''], [''docs'']] ''.txt''))
   \<and> lower (suffix [''docs'', ''sub'', ''B.TXT'']) = lower ''.txt''
   \<and> (\<exists>folder \<in> set [[''nope''], [''docs'']]. descendant folder [''docs'', ''sub'', ''B.TXT''])"
proof -
  have h: "[''docs'', ''sub'', ''B.TXT'']
             \<in> set (files_of (discover example_tree [[''nope''], [''docs'']] ''.txt''))"
    by code_simp
  from discover_suffix_and_descendant [OF h] h show ?thesis by blast
qed




section \<open>Reading the matched files\<close>

lemma read_file_block:
  "fst (read_file fs file_path) =
     (case open_read fs file_path of
        Text text \<Rightarrow> block_text file_path text
      | UnicodeDecodeError \<Rightarrow> []
      | OtherException e \<Rightarrow> [])"
  by (simp add: read_file_def split: read_outcome.splits)

lemma collect_blocks:
  "blocks (collect_text_from_folders fs folders extension use_multithreading order) =
     (if files_of (discover fs folders extension) = [] then []
      else map fst (read_all fs (files_of (discover fs folders extension)) use_multithreading order))"
  by (simp add: blocks_def yielded_def collect_text_from_folders_def files_of_def
           split: sum.splits prod.splits)

lemma read_all_sequential_Nil: "read_all fs [] False order = []"
  by (simp add: read_all_def)

text \<open>
  Claim C3. In sequential mode the generator yields one block per matched file, the
  block at position \<open>i\<close> being the one of the \<open>i\<close>-th file: its banner and text when
  the file was read, the empty string when reading it raised.
\<close>

theorem sequential_read_preserves_order:
  "length (read_all fs all_files False order) = length all_files
   \<and> (\<forall>i < length all_files.
         fst (read_all fs all_files False order ! i) =
           (case open_read fs (all_files ! i) of
              Text text \<Rightarrow> block_text (all_files ! i) text
            | UnicodeDecodeError \<Rightarrow> []
            | OtherException e \<Rightarrow> []))
   \<and> blocks (collect_text_from_folders fs folders extension False order) =
       map fst (read_all fs (files_of (discover fs folders extension)) False order)"
proof -
  have "length (read_all fs all_files False order) = length all_files"
    by (simp add: read_all_def)
  moreover have "\<forall>i < length all_files.
         fst (read_all fs all_files False order ! i) =
           (case open_read fs (all_files ! i) of
              Text text \<Rightarrow> block_text (all_files ! i) text
            | UnicodeDecodeError \<Rightarrow> []
            | OtherException e \<Rightarrow> [])"
    by (simp add: read_all_def read_file_block)
  moreover have "blocks (collect_text_from_folders fs folders extension False order) =
       map fst (read_all fs (files_of (discover fs folders extension)) False order)"
    by (simp add: collect_blocks read_all_sequential_Nil)
  ultimately show ?thesis by blast
qed

theorem sequential_read_preserves_order_witness:
  "length (read_all example_tree
             [[''docs'', ''a.txt''], [''docs'', ''c.txt''], [''docs'', ''sub'', ''B.TXT'']] False []) = 3
   \<and> fst (read_all example_tree
             [[''docs'', ''a.txt''], [''docs'', ''c.txt''], [''docs'', ''sub'', ''B.TXT'']] False [] ! 0)
       = block_text [''docs'', ''a.txt''] ''hello''
   \<and> fst (read_all example_tree
             [[''docs'', ''a.txt''], [''docs'', ''c.txt''], [''docs'', ''sub'', ''B.TXT'']] False [] ! 1)
       = []
   \<and> fst (read_all example_tree
             [[''docs'', ''a.txt''], [''docs'', ''c.txt''], [''docs'', ''sub'', ''B.TXT'']] False [] ! 2)
       = []"
proof -
  let ?files = "[[''docs'', ''a.txt''], [''docs'', ''c.txt''], [''docs'', ''sub'', ''B.TXT'']]"
  have o0: "open_read example_tree [''docs'', ''a.txt''] = Text ''hello''"
    by code_simp
  have o1: "open_read example_tree [''docs'', ''c.txt''] = OtherException ''[Errno 13] Permission denied''"
    by code_simp
  have o2: "open_read example_tree [''docs'', ''sub'', ''B.TXT''] = UnicodeDecodeError"
    by code_simp
  note t = sequential_read_preserves_order [of example_tree ?files "[]" "[]" "[]"]
  from t have len: "length (read_all example_tree ?files False []) = 3" by simp
  from t have a: "\<forall>i < length ?files.
         fst (read_all example_tree ?files False [] ! i) =
           (case open_read example_tree (?files ! i) of
              Text text \<Rightarrow> block_text (?files ! i) text
            | UnicodeDecodeError \<Rightarrow> []
            | OtherException e \<Rightarrow> [])"
    by blast
  from a have "fst (read_all example_tree ?files False [] ! 0) = block_text [''docs'', ''a.txt''] ''hello''"
    using o0 by simp
  moreover from a have "fst (read_all example_tree ?files False [] ! 1) = []"
    using o1 by simp
  moreover from a have "fst (read_all example_tree ?files False [] ! 2) = []"
    using o2 by simp
  ultimately show ?thesis using len by blast
qed

text \<open>
  Claim C4. Reading a file whose bytes do not decode prints and logs a WARNING and gives
  the empty block; any other exception prints and logs an ERROR and gives the empty
  block. The batch goes on either way: the files before and after are read as they
  would be on their own.
\<close>

theorem read_file_failure_contained:
  "(open_read fs file_path = UnicodeDecodeError \<longrightarrow>
      read_file fs file_path =
        ([], [Print_stderr (decode_warning_msg file_path),
              Logged WARNING (decode_warning_msg file_path)]))
   \<and> (open_read fs file_path = OtherException e \<longrightarrow>
      read_file fs file_path =
        ([], [Print_stderr (read_error_msg file_path e),
              Logged ERROR (read_error_msg file_path e)]))
   \<and> read_all fs (earlier @ file_path # later) False order =
       read_all fs earlier False order @ [read_file fs file_path] @ read_all fs later False order"
  by (simp add: read_file_def read_all_def)

theorem read_file_failure_contained_witness:
  "open_read example_tree [''docs'', ''sub'', ''B.TXT''] = UnicodeDecodeError
   \<and> read_file example_tree [''docs'', ''sub'', ''B.TXT''] =
       ([], [Print_stderr (decode_warning_msg [''docs'', ''sub'', ''B.TXT'']),
             Logged WARNING (decode_warning_msg [''docs'', ''sub'', ''B.TXT''])])
   \<and> open_read example_tree [''docs'', ''c.txt''] = OtherException ''[Errno 13] Permission denied''
   \<and> read_file example_tree [''docs'', ''c.txt''] =
       ([], [Print_stderr (read_error_msg [''docs'', ''c.txt''] ''[Errno 13] Permission denied''),
             Logged ERROR (read_error_msg [''docs'', ''c.txt''] ''[Errno 13] Permission denied'')])
   \<and> map fst (read_all example_tree
                 [[''docs'', ''sub'', ''B.TXT''], [''docs'', ''c.txt''], [''docs'', ''a.txt'']] False [])
       = [[], [], block_text [''docs'', ''a.txt''] ''hello'']"
proof -
  have o1: "open_read example_tree [''docs'', ''sub'', ''B.TXT''] = UnicodeDecodeError"
    by code_simp
  have o2: "open_read example_tree [''docs'', ''c.txt''] = OtherException ''[Errno 13] Permission denied''"
    by code_simp
  have o3: "open_read example_tree [''docs'', ''a.txt''] = Text ''hello''"
    by code_simp
  have r1: "read_file example_tree [''docs'', ''sub'', ''B.TXT''] =
       ([], [Print_stderr (decode_warning_msg [''docs'', ''sub'', ''B.TXT'']),
             Logged WARNING (decode_warning_msg [''docs'', ''sub'', ''B.TXT''])])"
    using read_file_failure_contained [of example_tree "[''docs'', ''sub'', ''B.TXT'']"] o1
    by blast
  have r2: "read_file example_tree [''docs'', ''c.txt''] =
       ([], [Print_stderr (read_error_msg [''docs'', ''c.txt''] ''[Errno 13] Permission denied''),
             Logged ERROR (read_error_msg [''docs'', ''c.txt''] ''[Errno 13] Permission denied'')])"
    using read_file_failure_contained [of example_tree "[''docs'', ''c.txt'']"] o2
    by blast
  have r3: "fst (read_file example_tree [''docs'', ''a.txt'']) = block_text [''docs'', ''a.txt''] ''hello''"
    by (simp add: read_file_block o3)
  have "read_all example_tree
          ([[''docs'', ''sub'', ''B.TXT'']] @ [''docs'', ''c.txt''] # [[''docs'', ''a.txt'']]) False [] =
        read_all example_tree [[''docs'', ''sub'', ''B.TXT'']] False []
        @ [read_file example_tree [''docs'', ''c.txt'']]
        @ read_all example_tree [[''docs'', ''a.txt'']] False []"
    using read_file_failure_contained
      [of example_tree "[''docs'', ''c.txt'']" "''x''" "[[''docs'', ''sub'', ''B.TXT'']]"
          "[[''docs'', ''a.txt'']]" "[]"]
    by blast
  then have "map fst (read_all example_tree
                 [[''docs'', ''sub'', ''B.TXT''], [''docs'', ''c.txt''], [''docs'', ''a.txt'']] False [])
       = [[], [], block_text [''docs'', ''a.txt''] ''hello'']"
    by (simp add: read_all_def r1 r2 r3)
  with o1 o2 r1 r2 show ?thesis by blast
qed

text \<open>
  Claim C5, as amended. The block of a file that was read is the banner, whose label is
  the Russian text of the source and not its English translation, followed by the
  file's name, the end of the banner, the text and two newlines.
\<close>

theorem read_file_block_format:
  assumes "open_read fs file_path = Text text"
  shows "read_file fs file_path =
           (''--- '' @ banner_label @ '': '' @ name file_path @ '' ---'' @ [CHR 0x0A]
            @ text @ [CHR 0x0A, CHR 0x0A], [])
         \<and> banner_label \<noteq> ''File content''"
proof -
  have "read_file fs file_path =
           (''--- '' @ banner_label @ '': '' @ name file_path @ '' ---'' @ [CHR 0x0A]
            @ text @ [CHR 0x0A, CHR 0x0A], [])"
    using assms by (simp add: read_file_def block_text_def)
  moreover have "banner_label \<noteq> ''File content''"
    by (simp add: banner_label_def)
  ultimately show ?thesis by blast
qed

theorem read_file_block_format_witness:
  "open_read (Dir Read_search [(''a.txt'', File (Text ''hello''))]) [''a.txt''] = Text ''hello''
   \<and> fst (read_file (Dir Read_search [(''a.txt'', File (Text ''hello''))]) [''a.txt'']) =
       ''--- '' @ banner_label @ '': a.txt ---'' @ [CHR 0x0A] @ ''hello'' @ [CHR 0x0A, CHR 0x0A]"
proof -
  have h: "open_read (Dir Read_search [(''a.txt'', File (Text ''hello''))]) [''a.txt''] = Text ''hello''"
    by code_simp
  have n: "name [''a.txt''] = ''a.txt''" by (simp add: name_def)
  from read_file_block_format [OF h] show ?thesis using h by (simp add: n)
qed

text \<open>
  The claim as the specification words it, with the English label, fails on a file
  \<open>a.txt\<close> that holds \<open>hello\<close>.
\<close>

theorem read_file_english_banner_counterexample:
  "open_read (Dir Read_search [(''a.txt'', File (Text ''hello''))]) [''a.txt''] = Text ''hello''
   \<and> fst (read_file (Dir Read_search [(''a.txt'', File (Text ''hello''))]) [''a.txt'']) \<noteq>
       ''--- File content: '' @ ''a.txt'' @ '' ---'' @ [CHR 0x0A] @ ''hello'' @ [CHR 0x0A, CHR 0x0A]"
proof -
  have h: "open_read (Dir Read_search [(''a.txt'', File (Text ''hello''))]) [''a.txt''] = Text ''hello''"
    by code_simp
  have "fst (read_file (Dir Read_search [(''a.txt'', File (Text ''hello''))]) [''a.txt'']) \<noteq>
       ''--- File content: '' @ ''a.txt'' @ '' ---'' @ [CHR 0x0A] @ ''hello'' @ [CHR 0x0A, CHR 0x0A]"
    by (simp add: read_file_def h block_text_def banner_label_def)
  with h show ?thesis by blast
qed

text \<open>
  Claim C6. When discovery finds no file, the generator yields nothing, in sequential
  and in concurrent mode.
\<close>

theorem no_matches_yields_nothing:
  assumes "files_of (discover fs folders extension) = []"
  shows "yielded (collect_text_from_folders fs folders extension use_multithreading order) = []
         \<and> blocks (collect_text_from_folders fs folders extension use_multithreading order) = []"
  using assms
  by (simp add: blocks_def yielded_def collect_text_from_folders_def files_of_def
           split: sum.splits prod.splits)

theorem no_matches_yields_nothing_witness:
  "files_of (discover example_tree [[''docs''], [''nope'']] ''.md'') = []
   \<and> blocks (collect_text_from_folders example_tree [[''docs''], [''nope'']] ''.md'' False []) = []
   \<and> blocks (collect_text_from_folders example_tree [[''docs''], [''nope'']] ''.md'' True [0, 1]) = []"
proof -
  have h: "files_of (discover example_tree [[''docs''], [''nope'']] ''.md'') = []"
    by code_simp
  from no_matches_yields_nothing [OF h, of False "[]"]
       no_matches_yields_nothing [OF h, of True "[0, 1]"] h
  show ?thesis by blast
qed

section \<open>The concurrent mode\<close>

lemma mset_concurrent_results:
  assumes "completion_order (length all_files) order"
  shows "mset (read_all fs all_files True order) = mset (read_all fs all_files False order')"
proof -
  have "mset (map (\<lambda>i. read_file fs (all_files ! i)) order) =
          image_mset (\<lambda>i. read_file fs (all_files ! i)) (mset order)"
    by simp
  also have "\<dots> = image_mset (\<lambda>i. read_file fs (all_files ! i)) (mset [0..<length all_files])"
    using assms by (simp add: completion_order_def)
  also have "\<dots> = mset (map (\<lambda>i. read_file fs (all_files ! i)) [0..<length all_files])"
    by simp
  also have "map (\<lambda>i. read_file fs (all_files ! i)) [0..<length all_files] =
               map (read_file fs) (map (\<lambda>i. all_files ! i) [0..<length all_files])"
    by simp
  also have "map (\<lambda>i. all_files ! i) [0..<length all_files] = all_files"
    by (rule map_nth)
  finally show ?thesis by (simp add: read_all_def)
qed

lemma length_concurrent_results:
  assumes "completion_order (length all_files) order"
  shows "length (read_all fs all_files True order) = length all_files"
proof -
  have "length order = size (mset order)" by simp
  also have "\<dots> = size (mset [0..<length all_files])"
    using assms by (simp add: completion_order_def)
  finally show ?thesis by (simp add: read_all_def)
qed

lemma mset_concurrent_blocks:
  assumes "completion_order (length all_files) order"
  shows "mset (filter (\<lambda>b. b \<noteq> []) (map fst (read_all fs all_files True order))) =
         mset (filter (\<lambda>b. b \<noteq> []) (map fst (read_all fs all_files False order')))"
proof -
  have "mset (map fst (read_all fs all_files True order)) =
          mset (map fst (read_all fs all_files False order'))"
    using mset_concurrent_results [OF assms, of fs order']
    by (metis mset_map)
  then show ?thesis
    by (metis mset_filter)
qed

lemma collect_blocks_concurrent:
  assumes "completion_order (length (files_of (discover fs folders extension))) order"
  shows "blocks (collect_text_from_folders fs folders extension True order) =
           map fst (read_all fs (files_of (discover fs folders extension)) True order)"
proof (cases "files_of (discover fs folders extension) = []")
  case True
  with assms have "mset order = {#}" by (simp add: completion_order_def)
  then have "order = []" by simp
  with True show ?thesis by (simp add: collect_blocks read_all_def)
next
  case False
  then show ?thesis by (simp add: collect_blocks)
qed

lemma collect_blocks_sequential:
  "blocks (collect_text_from_folders fs folders extension False order) =
     map fst (read_all fs (files_of (discover fs folders extension)) False order)"
  by (simp add: collect_blocks read_all_def)

text \<open>
  Claim C7. In concurrent mode, whatever order the pool completes the tasks in, there
  are as many results as files, and the non-empty blocks are, as a multiset, those of
  the sequential mode. This holds of the reading of any list of files, and of the
  generator: when the list is the one discovery built, the generator yields exactly
  these results.
\<close>

theorem concurrent_read_same_multiset:
  assumes "completion_order (length all_files) order"
  shows "length (read_all fs all_files True order) = length all_files
         \<and> mset (filter (\<lambda>b. b \<noteq> []) (map fst (read_all fs all_files True order))) =
             mset (filter (\<lambda>b. b \<noteq> []) (map fst (read_all fs all_files False order')))
         \<and> (files_of (discover fs folders extension) = all_files \<longrightarrow>
              blocks (collect_text_from_folders fs folders extension True order) =
                map fst (read_all fs all_files True order)
              \<and> length (blocks (collect_text_from_folders fs folders extension True order)) =
                  length all_files
              \<and> mset (filter (\<lambda>b. b \<noteq> [])
                    (blocks (collect_text_from_folders fs folders extension True order))) =
                  mset (filter (\<lambda>b. b \<noteq> [])
                    (blocks (collect_text_from_folders fs folders extension False order'))))"
proof -
  note len = length_concurrent_results [OF assms, of fs]
  note ms = mset_concurrent_blocks [OF assms, of fs order']
  have gen: "blocks (collect_text_from_folders fs folders extension True order) =
                map fst (read_all fs all_files True order)
              \<and> length (blocks (collect_text_from_folders fs folders extension True order)) =
                  length all_files
              \<and> mset (filter (\<lambda>b. b \<noteq> [])
                    (blocks (collect_text_from_folders fs folders extension True order))) =
                  mset (filter (\<lambda>b. b \<noteq> [])
                    (blocks (collect_text_from_folders fs folders extension False order')))"
    if d: "files_of (discover fs folders extension) = all_files"
  proof -
    from assms d
    have c: "completion_order (length (files_of (discover fs folders extension))) order"
      by simp
    have b1: "blocks (collect_text_from_folders fs folders extension True order) =
                map fst (read_all fs all_files True order)"
      using collect_blocks_concurrent [OF c] d by simp
    have b2: "blocks (collect_text_from_folders fs folders extension False order') =
                map fst (read_all fs all_files False order')"
      using collect_blocks_sequential [of fs folders extension order'] d by simp
    from b1 b2 len ms show ?thesis by simp
  qed
  from len ms gen show ?thesis by blast
qed

theorem concurrent_read_same_multiset_witness:
  "completion_order 3 [2, 0, 1]
   \<and> files_of (discover example_tree [[''docs'']] ''.txt'') =
       [[''docs'', ''a.txt''], [''docs'', ''c.txt''], [''docs'', ''sub'', ''B.TXT'']]
   \<and> length (blocks (collect_text_from_folders example_tree [[''docs'']] ''.txt'' True [2, 0, 1])) = 3
   \<and> mset (filter (\<lambda>b. b \<noteq> [])
         (blocks (collect_text_from_folders example_tree [[''docs'']] ''.txt'' True [2, 0, 1]))) =
       mset (filter (\<lambda>b. b \<noteq> [])
         (blocks (collect_text_from_folders example_tree [[''docs'']] ''.txt'' False [])))
   \<and> blocks (collect_text_from_folders example_tree [[''docs'']] ''.txt'' True [2, 0, 1]) =
       [[], block_text [''docs'', ''a.txt''] ''hello'', []]
   \<and> blocks (collect_text_from_folders example_tree [[''docs'']] ''.txt'' False []) =
       [block_text [''docs'', ''a.txt''] ''hello'', [], []]"
proof -
  let ?files = "[[''docs'', ''a.txt''], [''docs'', ''c.txt''], [''docs'', ''sub'', ''B.TXT'']]"
  have h3: "completion_order 3 [2, 0, 1]"
    by (simp add: completion_order_def numeral_3_eq_3 upt_rec)
  have h: "completion_order (length ?files) [2, 0, 1]"
    using h3 by (simp add: numeral_3_eq_3)
  have d: "files_of (discover example_tree [[''docs'']] ''.txt'') = ?files"
    by code_simp
  have o0: "open_read example_tree [''docs'', ''a.txt''] = Text ''hello''"
    by code_simp
  have o1: "open_read example_tree [''docs'', ''c.txt''] = OtherException ''[Errno 13] Permission denied''"
    by code_simp
  have o2: "open_read example_tree [''docs'', ''sub'', ''B.TXT''] = UnicodeDecodeError"
    by code_simp
  note t = concurrent_read_same_multiset
    [OF h, of example_tree "[]" "[[''docs'']]" "''.txt''"]
  from t d have b: "blocks (collect_text_from_folders example_tree [[''docs'']] ''.txt'' True [2, 0, 1]) =
                map fst (read_all example_tree ?files True [2, 0, 1])"
    by blast
  from t d have l: "length (blocks (collect_text_from_folders example_tree [[''docs'']] ''.txt'' True [2, 0, 1])) = 3"
    by simp
  from t d have m: "mset (filter (\<lambda>b. b \<noteq> [])
         (blocks (collect_text_from_folders example_tree [[''docs'']] ''.txt'' True [2, 0, 1]))) =
       mset (filter (\<lambda>b. b \<noteq> [])
         (blocks (collect_text_from_folders example_tree [[''docs'']] ''.txt'' False [])))"
    by blast
  have v: "blocks (collect_text_from_folders example_tree [[''docs'']] ''.txt'' True [2, 0, 1]) =
       [[], block_text [''docs'', ''a.txt''] ''hello'', []]"
    unfolding b by (simp add: read_all_def read_file_block o0 o1 o2)
  have s: "blocks (collect_text_from_folders example_tree [[''docs'']] ''.txt'' False []) =
       [block_text [''docs'', ''a.txt''] ''hello'', [], []]"
    by (simp add: collect_blocks_sequential d read_all_def read_file_block o0 o1 o2)
  from h3 d l m v s show ?thesis by blast
qed

section \<open>What the result depends on\<close>

lemma stat_append:
  "stat fs (r @ q) = (case stat fs r of Inl e \<Rightarrow> Inl e | Inr n \<Rightarrow> stat n q)"
  by (induction fs r rule: stat.induct) (auto split: option.splits)

lemma stat_agree_below:
  assumes "stat fs1 r = stat fs2 r" and "descendant r p"
  shows "stat fs1 p = stat fs2 p"
proof -
  from assms(2) have "p = r @ drop (length r) p"
    by (metis append_take_drop_id descendant_def)
  then obtain q where p: "p = r @ q" ..
  show ?thesis
    unfolding p stat_append using assms(1) by simp
qed

lemma is_file_agree: "stat fs1 p = stat fs2 p \<Longrightarrow> is_file fs1 p = is_file fs2 p"
  by (simp add: is_file_def)

lemma read_file_agree: "stat fs1 p = stat fs2 p \<Longrightarrow> read_file fs1 p = read_file fs2 p"
  by (simp add: read_file_def open_read_def)

lemma not_a_folder_agree:
  assumes "stat fs1 folder = stat fs2 folder"
  shows "not_a_folder fs1 folder = not_a_folder fs2 folder"
proof -
  have e: "exists fs1 folder = exists fs2 folder"
    by (simp add: exists_def assms)
  have d: "is_dir fs1 folder = is_dir fs2 folder"
    by (simp add: is_dir_def assms)
  show ?thesis
    unfolding not_a_folder_def e d by (rule refl)
qed

lemma rglob_agree: "stat fs1 folder = stat fs2 folder \<Longrightarrow> rglob fs1 folder = rglob fs2 folder"
  by (simp add: rglob_def)

lemma scan_entries_agree:
  "\<forall>p \<in> set ps. is_file fs1 p = is_file fs2 p \<Longrightarrow>
   scan_entries fs1 extension ps all_files = scan_entries fs2 extension ps all_files"
  by (induction ps arbitrary: all_files) (auto split: sum.splits)

lemma discover_loop_agree:
  "\<forall>folder \<in> set folders. stat fs1 folder = stat fs2 folder \<Longrightarrow>
   discover_loop fs1 extension folders acc = discover_loop fs2 extension folders acc"
proof (induction folders arbitrary: acc)
  case Nil
  show ?case by simp
next
  case (Cons folder folders)
  from Cons.prems have s: "stat fs1 folder = stat fs2 folder" by simp
  have "\<forall>p \<in> set (rglob fs2 folder). is_file fs1 p = is_file fs2 p"
    using s by (blast intro: is_file_agree stat_agree_below rglob_descendant)
  then have sc: "scan_entries fs1 extension (rglob fs2 folder) all_files =
                 scan_entries fs2 extension (rglob fs2 folder) all_files" for all_files
    by (rule scan_entries_agree)
  obtain all_files evs where acc: "acc = (all_files, evs)" by (cases acc)
  from Cons.prems have "\<forall>folder \<in> set folders. stat fs1 folder = stat fs2 folder" by simp
  then have ih: "discover_loop fs1 extension folders acc' = discover_loop fs2 extension folders acc'"
    for acc'
    by (rule Cons.IH)
  show ?case
    unfolding acc
    by (simp add: not_a_folder_agree [OF s] rglob_agree [OF s] sc ih split: sum.splits)
qed

lemma discover_agree:
  "\<forall>folder \<in> set folders. stat fs1 folder = stat fs2 folder \<Longrightarrow>
   discover fs1 folders extension = discover fs2 folders extension"
  unfolding discover_def by (rule discover_loop_agree)

lemma discovered_read_agree:
  assumes "\<forall>folder \<in> set folders. stat fs1 folder = stat fs2 folder"
    and "p \<in> set (files_of (discover fs1 folders extension))"
  shows "read_file fs1 p = read_file fs2 p"
proof -
  from discover_member [OF assms(2)] obtain folder where
    "folder \<in> set folders" and "p \<in> set (rglob fs1 folder)"
    by blast
  with assms(1) have "stat fs1 p = stat fs2 p"
    by (blast intro: stat_agree_below rglob_descendant)
  then show ?thesis by (rule read_file_agree)
qed

lemma save_output_completes:
  "files (save_output (st(temp_file \<mapsto> text)) temp_file output_file Write_completes) output_file =
     (if output_file = temp_file then None else Some text)"
  by (simp add: save_output_def read_text_def write_text_def unlink_def)

text \<open>
  Claim C8. Take two states of the file system in which \<open>stat\<close> gives the same at
  every folder of the input: the folders are reached in the same way and hold the same
  trees, and the states may differ anywhere else, as they do when the first run has
  written its output and its log outside the folders. Take any two completion orders of
  the pool, and any contents of the working directory before each run. Then the
  sequential runs yield the same, the text that \<open>main\<close> accumulates and the output file
  it writes are the same byte for byte, and the concurrent runs yield the same blocks up
  to their order.
\<close>

theorem collect_deterministic:
  assumes "\<forall>folder \<in> set folders. stat fs1 folder = stat fs2 folder"
    and "completion_order (length (files_of (discover fs1 folders extension))) order1"
    and "completion_order (length (files_of (discover fs2 folders extension))) order2"
  shows "collect_text_from_folders fs1 folders extension False order1 =
           collect_text_from_folders fs2 folders extension False order2
         \<and> write_chunks (blocks (collect_text_from_folders fs1 folders extension False order1)) ([], False) =
             write_chunks (blocks (collect_text_from_folders fs2 folders extension False order2)) ([], False)
         \<and> files (save_output
                    (st1(temp_file \<mapsto>
                       fst (write_chunks
                              (blocks (collect_text_from_folders fs1 folders extension False order1))
                              ([], False))))
                    temp_file output_file Write_completes) output_file =
             files (save_output
                    (st2(temp_file \<mapsto>
                       fst (write_chunks
                              (blocks (collect_text_from_folders fs2 folders extension False order2))
                              ([], False))))
                    temp_file output_file Write_completes) output_file
         \<and> mset (blocks (collect_text_from_folders fs1 folders extension True order1)) =
             mset (blocks (collect_text_from_folders fs2 folders extension True order2))"
proof -
  let ?files = "files_of (discover fs1 folders extension)"
  have d: "discover fs1 folders extension = discover fs2 folders extension"
    using assms(1) by (rule discover_agree)
  have r: "map (read_file fs1) ?files = map (read_file fs2) ?files"
    using discovered_read_agree [OF assms(1)] by simp
  then have ra: "read_all fs1 ?files False [] = read_all fs2 ?files False []"
    by (simp add: read_all_def)
  have seq: "collect_text_from_folders fs1 folders extension False order1 =
           collect_text_from_folders fs2 folders extension False order2"
  proof (cases "discover fs2 folders extension")
    case (Inl x)
    with d show ?thesis by (simp add: collect_text_from_folders_def)
  next
    case (Inr y)
    obtain all_files evs where y: "y = (all_files, evs)" by (cases y)
    from Inr y d have "?files = all_files" by (simp add: files_of_def)
    with r have "map (read_file fs1) all_files = map (read_file fs2) all_files" by simp
    with Inr y d show ?thesis by (simp add: collect_text_from_folders_def read_all_def)
  qed
  have "mset (read_all fs1 ?files True order1) = mset (read_all fs1 ?files False [])"
    using assms(2) by (rule mset_concurrent_results)
  moreover have "mset (read_all fs2 ?files True order2) = mset (read_all fs2 ?files False [])"
    using assms(3) unfolding d [symmetric] by (rule mset_concurrent_results)
  ultimately have "mset (read_all fs1 ?files True order1) = mset (read_all fs2 ?files True order2)"
    using ra by simp
  then have m: "mset (map fst (read_all fs1 ?files True order1)) =
                mset (map fst (read_all fs2 ?files True order2))"
    by (metis mset_map)
  have c1: "blocks (collect_text_from_folders fs1 folders extension True order1) =
              map fst (read_all fs1 ?files True order1)"
    using assms(2) by (rule collect_blocks_concurrent)
  have c2: "blocks (collect_text_from_folders fs2 folders extension True order2) =
              map fst (read_all fs2 ?files True order2)"
    using collect_blocks_concurrent [OF assms(3)] d by simp
  from m c1 c2 have conc:
    "mset (blocks (collect_text_from_folders fs1 folders extension True order1)) =
     mset (blocks (collect_text_from_folders fs2 folders extension True order2))"
    by simp
  from seq conc show ?thesis by (simp add: save_output_completes)
qed

theorem collect_deterministic_witness:
  "stat example_tree [''docs''] = stat example_tree_after [''docs'']
   \<and> lookup example_tree [''output.txt''] = None
   \<and> lookup example_tree_after [''output.txt''] = Some (File (Text ''the output of the first run''))
   \<and> collect_text_from_folders example_tree [[''docs'']] ''.txt'' False [2, 0, 1] =
       collect_text_from_folders example_tree_after [[''docs'']] ''.txt'' False [1, 2, 0]
   \<and> blocks (collect_text_from_folders example_tree_after [[''docs'']] ''.txt'' False [1, 2, 0]) =
       [block_text [''docs'', ''a.txt''] ''hello'', [], []]
   \<and> files (save_output
              [''temp_output.txt'' \<mapsto>
                 fst (write_chunks
                        (blocks (collect_text_from_folders example_tree [[''docs'']] ''.txt'' False [2, 0, 1]))
                        ([], False))]
              ''temp_output.txt'' ''output.txt'' Write_completes) ''output.txt'' =
       files (save_output
              [''output.txt'' \<mapsto> ''the output of the first run'',
               ''temp_output.txt'' \<mapsto>
                 fst (write_chunks
                        (blocks (collect_text_from_folders example_tree_after [[''docs'']] ''.txt'' False [1, 2, 0]))
                        ([], False))]
              ''temp_output.txt'' ''output.txt'' Write_completes) ''output.txt''
   \<and> mset (blocks (collect_text_from_folders example_tree [[''docs'']] ''.txt'' True [2, 0, 1])) =
       mset (blocks (collect_text_from_folders example_tree_after [[''docs'']] ''.txt'' True [1, 2, 0]))
   \<and> blocks (collect_text_from_folders example_tree [[''docs'']] ''.txt'' True [2, 0, 1]) =
       [[], block_text [''docs'', ''a.txt''] ''hello'', []]
   \<and> blocks (collect_text_from_folders example_tree_after [[''docs'']] ''.txt'' True [1, 2, 0]) =
       [[], [], block_text [''docs'', ''a.txt''] ''hello'']"
proof -
  let ?files = "[[''docs'', ''a.txt''], [''docs'', ''c.txt''], [''docs'', ''sub'', ''B.TXT'']]"
  have s: "stat example_tree [''docs''] = stat example_tree_after [''docs'']"
    by (simp add: example_tree_def example_tree_after_def searchable_def)
  then have a: "\<forall>folder \<in> set [[''docs'']]. stat example_tree folder = stat example_tree_after folder"
    by simp
  have l1: "lookup example_tree [''output.txt''] = None"
    by (simp add: example_tree_def)
  have l2: "lookup example_tree_after [''output.txt''] = Some (File (Text ''the output of the first run''))"
    by (simp add: example_tree_after_def)
  have d1: "files_of (discover example_tree [[''docs'']] ''.txt'') = ?files"
    by code_simp
  have d2: "files_of (discover example_tree_after [[''docs'']] ''.txt'') = ?files"
    by code_simp
  have h1: "completion_order (length (files_of (discover example_tree [[''docs'']] ''.txt''))) [2, 0, 1]"
    by (simp add: d1 completion_order_def upt_rec)
  have h2: "completion_order (length (files_of (discover example_tree_after [[''docs'']] ''.txt''))) [1, 2, 0]"
    by (simp add: d2 completion_order_def upt_rec)
  have o0: "open_read example_tree [''docs'', ''a.txt''] = Text ''hello''"
    by code_simp
  have o1: "open_read example_tree [''docs'', ''c.txt''] = OtherException ''[Errno 13] Permission denied''"
    by code_simp
  have o2: "open_read example_tree [''docs'', ''sub'', ''B.TXT''] = UnicodeDecodeError"
    by code_simp
  have p0: "open_read example_tree_after [''docs'', ''a.txt''] = Text ''hello''"
    by code_simp
  have p1: "open_read example_tree_after [''docs'', ''c.txt''] = OtherException ''[Errno 13] Permission denied''"
    by code_simp
  have p2: "open_read example_tree_after [''docs'', ''sub'', ''B.TXT''] = UnicodeDecodeError"
    by code_simp
  have v0: "blocks (collect_text_from_folders example_tree_after [[''docs'']] ''.txt'' False [1, 2, 0]) =
       [block_text [''docs'', ''a.txt''] ''hello'', [], []]"
    by (simp add: collect_blocks_sequential d2 read_all_def read_file_block p0 p1 p2)
  have v1: "blocks (collect_text_from_folders example_tree [[''docs'']] ''.txt'' True [2, 0, 1]) =
       [[], block_text [''docs'', ''a.txt''] ''hello'', []]"
    unfolding collect_blocks_concurrent [OF h1] d1
    by (simp add: read_all_def read_file_block o0 o1 o2)
  have v2: "blocks (collect_text_from_folders example_tree_after [[''docs'']] ''.txt'' True [1, 2, 0]) =
       [[], [], block_text [''docs'', ''a.txt''] ''hello'']"
    unfolding collect_blocks_concurrent [OF h2] d2
    by (simp add: read_all_def read_file_block p0 p1 p2)
  note t = collect_deterministic
    [OF a h1 h2, of "Map.empty" "''temp_output.txt''" "''output.txt''"
       "[''output.txt'' \<mapsto> ''the output of the first run'']"]
  from t have t1: "collect_text_from_folders example_tree [[''docs'']] ''.txt'' False [2, 0, 1] =
       collect_text_from_folders example_tree_after [[''docs'']] ''.txt'' False [1, 2, 0]"
    by blast
  from t have t3: "files (save_output
              [''temp_output.txt'' \<mapsto>
                 fst (write_chunks
                        (blocks (collect_text_from_folders example_tree [[''docs'']] ''.txt'' False [2, 0, 1]))
                        ([], False))]
              ''temp_output.txt'' ''output.txt'' Write_completes) ''output.txt'' =
       files (save_output
              [''output.txt'' \<mapsto> ''the output of the first run'',
               ''temp_output.txt'' \<mapsto>
                 fst (write_chunks
                        (blocks (collect_text_from_folders example_tree_after [[''docs'']] ''.txt'' False [1, 2, 0]))
                        ([], False))]
              ''temp_output.txt'' ''output.txt'' Write_completes) ''output.txt''"
    by blast
  from t have t4: "mset (blocks (collect_text_from_folders example_tree [[''docs'']] ''.txt'' True [2, 0, 1])) =
       mset (blocks (collect_text_from_folders example_tree_after [[''docs'']] ''.txt'' True [1, 2, 0]))"
    by blast
  from s l1 l2 t1 v0 t3 t4 v1 v2 show ?thesis by blast
qed

section \<open>Writing the output file\<close>

lemma write_failed_temp_present:
  assumes "st temp_file = Some data"
  shows "write_failed st temp_file e =
           \<lparr>files = st(temp_file := None),
            trace = [Print_stderr (write_error_msg e), Logged ERROR (write_error_msg e)],
            raised = None\<rparr>"
  using assms by (simp add: write_failed_def unlink_def Let_def)

text \<open>
  Claim C9, as amended. When writing the output file fails, the error is printed on the
  error stream and logged as ERROR, the temporary file is removed and \<open>main\<close> returns
  without an exception. The output file is not removed: it is as the failed write left
  it, absent or unchanged when opening failed, cut short when writing failed.
\<close>

theorem write_failure_removes_temp_file:
  assumes "st temp_file = Some data" and "w \<noteq> Write_completes"
  shows "(\<exists>e. trace (save_output st temp_file output_file w) =
               [Print_stderr (write_error_msg e), Logged ERROR (write_error_msg e)])
         \<and> files (save_output st temp_file output_file w) temp_file = None
         \<and> raised (save_output st temp_file output_file w) = None
         \<and> (output_file \<noteq> temp_file \<longrightarrow>
              files (save_output st temp_file output_file w) output_file =
                (case w of
                   Write_raises n e \<Rightarrow> Some (take n data)
                 | _ \<Rightarrow> st output_file))"
proof (cases w)
  case Write_completes
  with assms(2) show ?thesis by simp
next
  case (Open_raises e)
  have "save_output st temp_file output_file w = write_failed st temp_file e"
    using assms(1) Open_raises by (simp add: save_output_def read_text_def write_text_def)
  then show ?thesis
    using assms(1) Open_raises by (auto simp: write_failed_temp_present)
next
  case (Write_raises n e)
  have "save_output st temp_file output_file w =
          write_failed (st(output_file \<mapsto> take n data)) temp_file e"
    using assms(1) Write_raises by (simp add: save_output_def read_text_def write_text_def)
  moreover have "\<exists>d. (st(output_file \<mapsto> take n data)) temp_file = Some d"
    using assms(1) by simp
  ultimately show ?thesis
    using Write_raises by (auto simp: write_failed_temp_present)
qed

theorem write_failure_removes_temp_file_witness:
  "[''temp_output.txt'' \<mapsto> ''abc''] ''temp_output.txt'' = Some ''abc''
   \<and> Write_raises 1 ''[Errno 28] No space left on device'' \<noteq> Write_completes
   \<and> files (save_output [''temp_output.txt'' \<mapsto> ''abc''] ''temp_output.txt'' ''output.txt''
              (Write_raises 1 ''[Errno 28] No space left on device'')) ''temp_output.txt'' = None
   \<and> raised (save_output [''temp_output.txt'' \<mapsto> ''abc''] ''temp_output.txt'' ''output.txt''
              (Write_raises 1 ''[Errno 28] No space left on device'')) = None
   \<and> files (save_output [''temp_output.txt'' \<mapsto> ''abc''] ''temp_output.txt'' ''output.txt''
              (Write_raises 1 ''[Errno 28] No space left on device'')) ''output.txt'' = Some ''a''"
proof -
  have h1: "[''temp_output.txt'' \<mapsto> ''abc''] ''temp_output.txt'' = Some ''abc''"
    by simp
  have h2: "Write_raises 1 ''[Errno 28] No space left on device'' \<noteq> Write_completes"
    by simp
  have h3: "''output.txt'' \<noteq> ''temp_output.txt''"
    by simp
  note t = write_failure_removes_temp_file
    [where st = "[''temp_output.txt'' \<mapsto> ''abc'']" and temp_file = "''temp_output.txt''"
       and data = "''abc''" and w = "Write_raises 1 ''[Errno 28] No space left on device''"
       and output_file = "''output.txt''", OF h1 h2]
  from t h1 h2 h3 show ?thesis by simp
qed

text \<open>
  The claim as the specification words it fails: after a write that raises once one
  character has reached the output file, the output file is there with that character.
\<close>

theorem save_output_partial_file_counterexample:
  "files (save_output [''temp_output.txt'' \<mapsto> ''abc''] ''temp_output.txt'' ''output.txt''
            (Write_raises 1 ''[Errno 28] No space left on device'')) ''output.txt'' = Some ''a''"
  by (simp add: save_output_def read_text_def write_text_def write_failed_def unlink_def Let_def)

section \<open>What the extension filter looks at\<close>

lemma suffix_archive: "name p = ''archive.txt.gz'' \<Longrightarrow> suffix p = ''.gz''"
  by (simp add: suffix_def rfind_def)

lemma suffix_dot_file: "name p = ''.txt'' \<Longrightarrow> suffix p = []"
  by (simp add: suffix_def rfind_def)

lemma lower_eq_Nil: "lower s = [] \<longleftrightarrow> s = []"
  by (simp add: lower_def)

text \<open>
  Claim C10. Only the last suffix of the name of a regular file is compared: a file
  named \<open>archive.txt.gz\<close> is not found for the extension \<open>.txt\<close>; a file named
  \<open>.txt\<close> has the empty suffix and is found for no extension (an extension starts with
  a dot, so it is not empty); a directory is never in the list.
\<close>

theorem discover_final_suffix_only:
  "(name p = ''archive.txt.gz'' \<longrightarrow> p \<notin> set (files_of (discover fs folders ''.txt'')))
   \<and> (name p = ''.txt'' \<and> extension \<noteq> [] \<longrightarrow> p \<notin> set (files_of (discover fs folders extension)))
   \<and> (is_dir fs p = Inr True \<longrightarrow> p \<notin> set (files_of (discover fs folders extension)))
   \<and> ((\<exists>a entries. lookup fs p = Some (Dir a entries)) \<longrightarrow>
        p \<notin> set (files_of (discover fs folders extension)))"
proof -
  have a: "p \<notin> set (files_of (discover fs folders ''.txt''))" if n: "name p = ''archive.txt.gz''"
  proof
    assume "p \<in> set (files_of (discover fs folders ''.txt''))"
    then have "lower (suffix p) = lower ''.txt''"
      using discover_matches by (simp add: matches_def)
    then show False
      by (simp add: suffix_archive [OF n] lower_def lower_char_def)
  qed
  have b: "p \<notin> set (files_of (discover fs folders extension))"
    if n: "name p = ''.txt''" and e: "extension \<noteq> []"
  proof
    assume "p \<in> set (files_of (discover fs folders extension))"
    then have "lower (suffix p) = lower extension"
      using discover_matches by (simp add: matches_def)
    then have "lower extension = []"
      by (simp add: suffix_dot_file [OF n] lower_def)
    then show False using e by (simp add: lower_eq_Nil)
  qed
  have c: "p \<notin> set (files_of (discover fs folders extension))" if d: "is_dir fs p = Inr True"
  proof
    assume "p \<in> set (files_of (discover fs folders extension))"
    then have "is_file fs p = Inr True"
      using discover_matches by (simp add: matches_def)
    then show False
      using d by (auto simp: is_file_def is_dir_def split: sum.splits node.splits if_splits)
  qed
  have d: "p \<notin> set (files_of (discover fs folders extension))"
    if l: "\<exists>a entries. lookup fs p = Some (Dir a entries)"
  proof
    assume "p \<in> set (files_of (discover fs folders extension))"
    then have "is_file fs p = Inr True"
      using discover_matches by (simp add: matches_def)
    then obtain f where "stat fs p = Inr (File f)"
      by (auto simp: is_file_def split: sum.splits node.splits if_splits)
    then have "lookup fs p = Some (File f)" by (rule stat_lookup)
    with l show False by auto
  qed
  from a b c d show ?thesis by blast
qed

theorem discover_final_suffix_only_witness:
  "is_file example_tree [''docs'', ''sub'', ''archive.txt.gz''] = Inr True
   \<and> [''docs'', ''sub'', ''archive.txt.gz''] \<notin> set (files_of (discover example_tree [[''docs'']] ''.txt''))
   \<and> [''docs'', ''sub'', ''archive.txt.gz''] \<in> set (files_of (discover example_tree [[''docs'']] ''.GZ''))
   \<and> is_file example_tree [''docs'', ''sub'', ''.txt''] = Inr True
   \<and> [''docs'', ''sub'', ''.txt''] \<notin> set (files_of (discover example_tree [[''docs'']] ''.txt''))
   \<and> is_dir example_tree [''docs'', ''d.txt''] = Inr True
   \<and> lower (suffix [''docs'', ''d.txt'']) = lower ''.txt''
   \<and> [''docs'', ''d.txt''] \<notin> set (files_of (discover example_tree [[''docs'']] ''.txt''))"
proof -
  have f1: "is_file example_tree [''docs'', ''sub'', ''archive.txt.gz''] = Inr True" by code_simp
  have g1: "[''docs'', ''sub'', ''archive.txt.gz'']
              \<in> set (files_of (discover example_tree [[''docs'']] ''.GZ''))"
    by code_simp
  have n1: "name [''docs'', ''sub'', ''archive.txt.gz''] = ''archive.txt.gz''"
    by (simp add: name_def)
  have f2: "is_file example_tree [''docs'', ''sub'', ''.txt''] = Inr True" by code_simp
  have n2: "name [''docs'', ''sub'', ''.txt''] = ''.txt''"
    by (simp add: name_def)
  have e2: "''.txt'' \<noteq> []" by simp
  have d3: "is_dir example_tree [''docs'', ''d.txt''] = Inr True" by code_simp
  have s3: "lower (suffix [''docs'', ''d.txt'']) = lower ''.txt''" by code_simp
  have r1: "[''docs'', ''sub'', ''archive.txt.gz'']
              \<notin> set (files_of (discover example_tree [[''docs'']] ''.txt''))"
    using discover_final_suffix_only
      [of "[''docs'', ''sub'', ''archive.txt.gz'']" example_tree "[[''docs'']]" "''.txt''"] n1
    by blast
  have r2: "[''docs'', ''sub'', ''.txt'']
              \<notin> set (files_of (discover example_tree [[''docs'']] ''.txt''))"
    using discover_final_suffix_only
      [of "[''docs'', ''sub'', ''.txt'']" example_tree "[[''docs'']]" "''.txt''"] n2 e2
    by blast
  have r3: "[''docs'', ''d.txt''] \<notin> set (files_of (discover example_tree [[''docs'']] ''.txt''))"
    using discover_final_suffix_only
      [of "[''docs'', ''d.txt'']" example_tree "[[''docs'']]" "''.txt''"] d3
    by blast
  from f1 r1 g1 f2 r2 d3 s3 r3 show ?thesis by blast
qed

end
